theory Spec2Isabelle
  imports Complex_Main "HOL-Library.AList"
begin

section \<open>JavaScript values and strings\<close>

text \<open>
  The helper module of the member API is JavaScript. Strings are modelled as
  \<^typ>\<open>string\<close>; the string operations the helpers use (\<open>toLowerCase\<close>,
  \<open>trim\<close>, \<open>split(',')\<close>) are modelled on ASCII text. Numbers that the helpers
  compute with are integers (page numbers, totals); the one place where a division
  can leave the integers is written out in \<open>math_ceil_div\<close>.
\<close>

datatype jsnum = JFinite int | JInfinity | JNegInfinity | JNaN

datatype jsval =
    JUndefined
  | JNull
  | JBool bool
  | JNum jsnum
  | JStr string
  | JArr "jsval list"
  | JObj "(string \<times> jsval) list"

text \<open>Truthiness, as \<open>!x\<close>, \<open>x && y\<close> and \<open>x || y\<close> test it.\<close>

fun truthy :: "jsval \<Rightarrow> bool" where
  "truthy JUndefined = False"
| "truthy JNull = False"
| "truthy (JBool b) = b"
| "truthy (JNum (JFinite i)) = (i \<noteq> 0)"
| "truthy (JNum JNaN) = False"
| "truthy (JNum JInfinity) = True"
| "truthy (JNum JNegInfinity) = True"
| "truthy (JStr s) = (s \<noteq> [])"
| "truthy (JArr xs) = True"
| "truthy (JObj ps) = True"

text \<open>\<open>a && b\<close> and \<open>a || b\<close> return one of their operands, not a boolean.\<close>

definition js_and :: "jsval \<Rightarrow> jsval \<Rightarrow> jsval" where
  "js_and a b = (if truthy a then b else a)"

definition js_or :: "jsval \<Rightarrow> jsval \<Rightarrow> jsval" where
  "js_or a b = (if truthy a then a else b)"

definition upper_letters :: string where
  "upper_letters = ''ABCDEFGHIJKLMNOPQRSTUVWXYZ''"

definition lower_letters :: string where
  "lower_letters = ''abcdefghijklmnopqrstuvwxyz''"

definition lower_char :: "char \<Rightarrow> char" where
  "lower_char c =
     (case map_of (zip upper_letters lower_letters) c of None \<Rightarrow> c | Some d \<Rightarrow> d)"

definition toLowerCase :: "string \<Rightarrow> string" where
  "toLowerCase s = map lower_char s"

text \<open>
  Two strings that differ only in letter case: the same length, and at each position
  the same character or the two cases of one letter. This is stated without
  \<open>toLowerCase\<close>, to compare the code's lower-casing against.
\<close>

definition same_letter :: "char \<Rightarrow> char \<Rightarrow> bool" where
  "same_letter c d \<longleftrightarrow>
     c = d \<or> (c, d) \<in> set (zip upper_letters lower_letters)
           \<or> (d, c) \<in> set (zip upper_letters lower_letters)"

definition equalsIgnoreCase :: "string \<Rightarrow> string \<Rightarrow> bool" where
  "equalsIgnoreCase s t = list_all2 same_letter s t"

text \<open>\<open>s.trim()\<close>: white space and line terminators are dropped at both ends.\<close>

definition is_space :: "char \<Rightarrow> bool" where
  "is_space c \<longleftrightarrow> c \<in> set [CHR 0x09, CHR 0x0A, CHR 0x0B, CHR 0x0C, CHR 0x0D, CHR 0x20]"

definition trim :: "string \<Rightarrow> string" where
  "trim s = rev (dropWhile is_space (rev (dropWhile is_space s)))"

text \<open>\<open>s.split(sep)\<close> for a one-character separator; \<open>''''\<close> splits into \<open>['''']\<close>.\<close>

fun split :: "char \<Rightarrow> string \<Rightarrow> string list" where
  "split sep [] = [[]]"
| "split sep (c # cs) =
     (if c = sep then [] # split sep cs
      else (case split sep cs of
              [] \<Rightarrow> [[c]]
            | w # ws \<Rightarrow> (c # w) # ws))"

section \<open>Errors and promises\<close>

text \<open>
  \<open>NotFoundError\<close> and \<open>BadRequestError\<close> carry their message. \<open>TypeError\<close> is what
  the runtime raises on \<open>undefined.f(...)\<close> or \<open>undefined.count\<close>. \<open>StoreError\<close>
  is the \<open>err\<close> that the document store hands to a callback, passed on as it is.
\<close>

datatype 'e error =
    NotFoundError string
  | BadRequestError string
  | TypeError
  | StoreError 'e

text \<open>
  The state a promise built by a helper ends in. \<open>Uncaught\<close>: the store's callback
  itself threw, after the promise's executor had returned, so the promise is never
  settled.
\<close>

datatype ('e, 'r) promise =
    Resolved 'r
  | Rejected "'e error"
  | Uncaught "'e error"

section \<open>The document store\<close>

text \<open>
  What \<open>exec\<close> hands to its callback \<open>(err, result)\<close>: \<open>err\<close> is \<open>None\<close> when
  falsy; \<open>result\<close> is \<open>None\<close> when \<open>null\<close> or \<open>undefined\<close>, and otherwise an array
  of entities that may also carry a \<open>count\<close>.
\<close>

record 'a result_array =
  elems :: "'a list"
  count :: "int option"

type_synonym ('e, 'a) callback_args = "'e option \<times> 'a result_array option"

text \<open>
  A model of \<open>require('../models')\<close>, which is not part of the helper module and is
  taken as a parameter: \<open>query(k).eq(v).exec\<close>, \<open>scan(params).exec\<close> and
  \<open>query(params).exec\<close>, each by what it passes to the callback.
\<close>

record ('v, 'p, 'q, 'e, 'a) model =
  query_eq_exec :: "string \<Rightarrow> 'v \<Rightarrow> ('e, 'a) callback_args"
  scan_exec :: "'p \<Rightarrow> ('e, 'a) callback_args"
  query_exec :: "'q \<Rightarrow> ('e, 'a) callback_args"

type_synonym ('v, 'p, 'q, 'e, 'a) models = "string \<Rightarrow> ('v, 'p, 'q, 'e, 'a) model option"

text \<open>The literal \<open>[]\<close>: no elements, no \<open>count\<close> property.\<close>

definition empty_array :: "'a result_array" where
  "empty_array = \<lparr>elems = [], count = None\<rparr>"

text \<open>The rows of a callback's \<open>result\<close>; none when it is \<open>null\<close> or \<open>undefined\<close>.\<close>

definition rows :: "'a result_array option \<Rightarrow> 'a list" where
  "rows result = (case result of None \<Rightarrow> [] | Some r \<Rightarrow> elems r)"

subsection \<open>getEntityByHashKey, getMemberByHandle\<close>

text \<open>
  \<open>str\<close> is the string conversion that the template literal applies to \<open>value\<close>.
  \<open>models[modelName]\<close> of an unknown name is \<open>undefined\<close>, and calling \<open>query\<close> on
  it throws inside the executor, which rejects the promise.
\<close>

definition getEntityByHashKey ::
  "('v \<Rightarrow> string) \<Rightarrow> ('v, 'p, 'q, 'e, 'a) models \<Rightarrow> string \<Rightarrow> string \<Rightarrow> 'v \<Rightarrow> ('e, 'a) promise"
where
  "getEntityByHashKey str models modelName hashKeyName v =
     (case models modelName of
        None \<Rightarrow> Rejected TypeError
      | Some m \<Rightarrow>
          (case query_eq_exec m hashKeyName v of
             (Some err, result) \<Rightarrow> Rejected (StoreError err)
           | (None, None) \<Rightarrow>
               Rejected (NotFoundError
                 (''Can not find '' @ modelName @ '' with '' @ hashKeyName @ '': '' @ str v))
           | (None, Some r) \<Rightarrow>
               (if length (elems r) > 0 then Resolved (elems r ! 0)
                else Rejected (NotFoundError
                  (''Can not find '' @ modelName @ '' with '' @ hashKeyName @ '': '' @ str v)))))"

definition getMemberByHandle ::
  "(string, 'p, 'q, 'e, 'a) models \<Rightarrow> string \<Rightarrow> ('e, 'a) promise"
where
  \<open>getMemberByHandle models h =
     (case models ''Member'' of
        None \<Rightarrow> Rejected TypeError
      | Some m \<Rightarrow>
          (case query_eq_exec m ''handleLower'' (toLowerCase h) of
             (Some err, result) \<Rightarrow> Rejected (StoreError err)
           | (None, None) \<Rightarrow>
               Rejected (NotFoundError (''Member with handle: "'' @ h @ ''" doesn't exist''))
           | (None, Some r) \<Rightarrow>
               (if length (elems r) > 0 then Resolved (elems r ! 0)
                else Rejected (NotFoundError
                  (''Member with handle: "'' @ h @ ''" doesn't exist'')))))\<close>

subsection \<open>scan, query\<close>

text \<open>
  The resolved value is an option, so that \<open>null\<close> and \<open>undefined\<close> can be told
  from an array. In \<open>scan\<close>, \<open>result.count\<close> of a missing result throws inside the
  callback.
\<close>

definition scan ::
  "('v, 'p, 'q, 'e, 'a) models \<Rightarrow> string \<Rightarrow> 'p \<Rightarrow> ('e, 'a result_array option) promise"
where
  "scan models modelName scanParams =
     (case models modelName of
        None \<Rightarrow> Rejected TypeError
      | Some m \<Rightarrow>
          (case scan_exec m scanParams of
             (Some err, result) \<Rightarrow> Rejected (StoreError err)
           | (None, None) \<Rightarrow> Uncaught TypeError
           | (None, Some r) \<Rightarrow>
               Resolved (Some (if count r = Some 0 then empty_array else r))))"

definition query ::
  "('v, 'p, 'q, 'e, 'a) models \<Rightarrow> string \<Rightarrow> 'q \<Rightarrow> ('e, 'a result_array option) promise"
where
  "query models modelName queryParams =
     (case models modelName of
        None \<Rightarrow> Rejected TypeError
      | Some m \<Rightarrow>
          (case query_exec m queryParams of
             (Some err, result) \<Rightarrow> Rejected (StoreError err)
           | (None, result) \<Rightarrow>
               Resolved (Some (case result of None \<Rightarrow> empty_array | Some r \<Rightarrow> r))))"

subsection \<open>update\<close>

text \<open>
  The entity \<open>dbItem\<close> is an object of the store's model class. It is modelled by
  \<^item> \<open>own_fields\<close>, its own properties, and
  \<^item> \<open>proto\<close>, which is \<open>None\<close> as long as the object has the prototype that its
    class gave it, and \<open>Some v\<close> once an assignment to \<open>__proto__\<close> has replaced that
    prototype by \<open>v\<close>.

  Through the prototype of its class the object inherits the method \<open>save\<close> and, from
  \<open>Object.prototype\<close>, the accessor \<open>__proto__\<close>. Values are data (\<^typ>\<open>jsval\<close> has no
  functions), so neither a field nor a prototype taken from a payload provides a \<open>save\<close>
  that can be called.

  The update payload \<open>data\<close> is the list of its own enumerable properties, in the
  order \<open>Object.keys\<close> reports them; \<open>data[key]\<close> reads the property of that name.
\<close>

record entity =
  own_fields :: "string \<rightharpoonup> jsval"
  proto :: "jsval option"

definition Object_keys :: "(string \<times> 'v) list \<Rightarrow> string list" where
  "Object_keys obj = map fst obj"

definition get_prop :: "(string \<times> 'v) list \<Rightarrow> string \<Rightarrow> 'v option" where
  "get_prop obj k = map_of obj k"

definition read_prop :: "(string \<times> jsval) list \<Rightarrow> string \<Rightarrow> jsval" where
  "read_prop obj k = (case get_prop obj k of None \<Rightarrow> JUndefined | Some v \<Rightarrow> v)"

fun is_object :: "jsval \<Rightarrow> bool" where
  "is_object (JArr xs) = True"
| "is_object (JObj ps) = True"
| "is_object v = False"

text \<open>
  Whether an object with the given \<open>proto\<close> still inherits the accessor \<open>__proto__\<close>:
  not when its prototype is \<open>null\<close>, and not when its prototype is a payload object
  that has a property \<open>__proto__\<close> of its own, which is found first.
\<close>

fun inherits_proto_accessor :: "jsval option \<Rightarrow> bool" where
  "inherits_proto_accessor None = True"
| "inherits_proto_accessor (Some JNull) = False"
| "inherits_proto_accessor (Some (JObj ps)) = (''__proto__'' \<notin> fst ` set ps)"
| "inherits_proto_accessor (Some v) = True"

text \<open>
  The assignment \<open>dbItem[key] = v\<close>. For every key but \<open>__proto__\<close> it sets a property
  of the object's own, which shadows what the object inherits under that name. For
  \<open>__proto__\<close>, unless the object has such a property of its own or no longer inherits the
  accessor, the assignment calls the accessor: it replaces the prototype when \<open>v\<close> is an
  object or \<open>null\<close> and does nothing for any other value.
\<close>

definition assign :: "entity \<Rightarrow> string \<Rightarrow> jsval \<Rightarrow> entity" where
  "assign item key v =
     (if key = ''__proto__'' \<and> own_fields item ''__proto__'' = None
           \<and> inherits_proto_accessor (proto item)
      then (if is_object v \<or> v = JNull then item\<lparr>proto := Some v\<rparr> else item)
      else item\<lparr>own_fields := (own_fields item)(key \<mapsto> v)\<rparr>)"

text \<open>
  \<open>Object.keys(data).forEach((key) => { dbItem[key] = data[key] })\<close>. The item is
  changed in place, whatever happens afterwards.
\<close>

definition merge_fields :: "entity \<Rightarrow> (string \<times> jsval) list \<Rightarrow> entity" where
  "merge_fields dbItem data =
     foldl (\<lambda>item key. assign item key (read_prop data key)) dbItem (Object_keys data)"

text \<open>
  Whether \<open>dbItem.save\<close> is the method of the store's class: the object has no property
  \<open>save\<close> of its own and still has the prototype of its class. Otherwise \<open>dbItem.save\<close>
  is a data value or \<open>undefined\<close>, and calling it throws inside the executor.
\<close>

definition can_save :: "entity \<Rightarrow> bool" where
  "can_save item \<longleftrightarrow> own_fields item ''save'' = None \<and> proto item = None"

text \<open>
  \<open>update\<close> returns the item as it is left in memory, and the state of the promise.
  \<open>save\<close> is the store's instance method, by the \<open>err\<close> it passes to its callback
  for the entity it is called on (\<open>None\<close> when falsy).
\<close>

definition update ::
  "(entity \<Rightarrow> 'e option) \<Rightarrow> entity \<Rightarrow> (string \<times> jsval) list
     \<Rightarrow> entity \<times> ('e, entity) promise"
where
  "update save dbItem data =
     (let dbItem' = merge_fields dbItem data
      in (dbItem',
          (if \<not> can_save dbItem' then Rejected TypeError
           else (case save dbItem' of
                   Some err \<Rightarrow> Rejected (StoreError err)
                 | None \<Rightarrow> Resolved dbItem'))))"

section \<open>Authorization predicates\<close>

text \<open>
  The authenticated user. \<open>roles\<close> and \<open>handle\<close> may be absent (\<open>None\<close>); a
  machine token sets \<open>isMachine\<close>. A member profile is read at \<open>handleLower\<close> only.
\<close>

record principal =
  roles :: "string list option"
  isMachine :: bool
  handle :: "string option"

record member =
  handleLower :: string

text \<open>
  \<open>constants.ADMIN_ROLES\<close> comes from \<open>app-constants\<close>, which is not part of the
  helper module: it is a parameter. The two loops of \<open>hasAdminRole\<close>, inner first.
\<close>

fun hasAdminRole_j :: "string \<Rightarrow> string list \<Rightarrow> bool" where
  "hasAdminRole_j role [] = False"
| "hasAdminRole_j role (a # as) =
     (if toLowerCase role = toLowerCase a then True else hasAdminRole_j role as)"

fun hasAdminRole_i :: "string list \<Rightarrow> string list \<Rightarrow> bool" where
  "hasAdminRole_i ADMIN_ROLES [] = False"
| "hasAdminRole_i ADMIN_ROLES (role # rs) =
     (if hasAdminRole_j role ADMIN_ROLES then True else hasAdminRole_i ADMIN_ROLES rs)"

definition hasAdminRole :: "string list \<Rightarrow> principal \<Rightarrow> bool" where
  "hasAdminRole ADMIN_ROLES authUser =
     (case roles authUser of
        None \<Rightarrow> False
      | Some rs \<Rightarrow> hasAdminRole_i ADMIN_ROLES rs)"

text \<open>
  \<open>currentUser && (currentUser.isMachine || hasAdminRole(currentUser) ||
  (currentUser.handle && currentUser.handle.toLowerCase() === member.handleLower))\<close>:
  the value is the operand that decided, so it is \<open>null\<close> for no user, \<open>undefined\<close>
  for a user without handle and the empty string for an empty handle.
\<close>

definition canManageMember :: "string list \<Rightarrow> principal option \<Rightarrow> member \<Rightarrow> jsval" where
  "canManageMember ADMIN_ROLES currentUser m =
     (case currentUser of
        None \<Rightarrow> JNull
      | Some u \<Rightarrow>
          js_or (JBool (isMachine u))
            (js_or (JBool (hasAdminRole ADMIN_ROLES u))
               (case handle u of
                  None \<Rightarrow> JUndefined
                | Some h \<Rightarrow> js_and (JStr h) (JBool (toLowerCase h = handleLower m)))))"

text \<open>
  The condition as the specification words it: a machine actor, or an admin role, or
  a handle that equals the member's stored lower-cased handle without regard to case.
\<close>

definition spec_canManageMember :: "string list \<Rightarrow> principal option \<Rightarrow> member \<Rightarrow> bool" where
  "spec_canManageMember ADMIN_ROLES currentUser m =
     (case currentUser of
        None \<Rightarrow> False
      | Some u \<Rightarrow>
          isMachine u \<or> hasAdminRole ADMIN_ROLES u \<or>
          (case handle u of
             None \<Rightarrow> False
           | Some h \<Rightarrow> equalsIgnoreCase h (handleLower m)))"

section \<open>Request parsing\<close>

text \<open>
  \<open>const mapping = {}\<close> is an ordinary object: \<open>mapping[value]\<close> finds the
  properties that the loop has set and also the ones every object inherits from
  \<open>Object.prototype\<close>, all of them functions or objects and so truthy. \<open>own\<close> is the
  list of the names set so far.
\<close>

definition Object_prototype_names :: "string list" where
  "Object_prototype_names =
     [''constructor'', ''hasOwnProperty'', ''isPrototypeOf'', ''propertyIsEnumerable'',
      ''toLocaleString'', ''toString'', ''valueOf'', ''__proto__'',
      ''__defineGetter__'', ''__defineSetter__'', ''__lookupGetter__'', ''__lookupSetter__'']"

definition mapping_get :: "string list \<Rightarrow> string \<Rightarrow> bool" where
  "mapping_get own v \<longleftrightarrow> v \<in> set own \<or> v \<in> set Object_prototype_names"

text \<open>
  The body of \<open>_.forEach(values, ...)\<close>, value by value; \<open>Some\<close> is the error thrown.
  \<open>allowedValues\<close> is \<open>None\<close> when absent; an empty list is truthy and allows nothing.
\<close>

fun check_values :: "string list option \<Rightarrow> string list \<Rightarrow> string list \<Rightarrow> 'e error option" where
  "check_values allowedValues own [] = None"
| "check_values allowedValues own (v # vs) =
     (if length (trim v) = 0 then Some (BadRequestError ''Empty value.'')
      else if (case allowedValues of None \<Rightarrow> False | Some allowed \<Rightarrow> v \<notin> set allowed)
        then Some (BadRequestError (''Invalid value: '' @ v))
      else if mapping_get own v then Some (BadRequestError (''Duplicate values: '' @ v))
      else check_values allowedValues (v # own) vs)"

text \<open>\<open>s\<close> is \<open>None\<close> when absent; the result \<open>Inr None\<close> is \<open>null\<close>.\<close>

definition parseCommaSeparatedString ::
  "string option \<Rightarrow> string list option \<Rightarrow> 'e error + string list option"
where
  "parseCommaSeparatedString s allowedValues =
     (case s of
        None \<Rightarrow> Inr None
      | Some str \<Rightarrow>
          (if str = [] then Inr None
           else (let values = split CHR '','' str
                 in (case check_values allowedValues [] values of
                       Some e \<Rightarrow> Inl e
                     | None \<Rightarrow> Inr (Some values)))))"

text \<open>
  The condition under which the specification has the parser fail: an element that is
  empty once trimmed, an element outside the allowed values when these are given, or an
  element that occurs more than once.
\<close>

definition spec_bad_request :: "string list option \<Rightarrow> string list \<Rightarrow> bool" where
  "spec_bad_request allowedValues values \<longleftrightarrow>
     (\<exists>v \<in> set values. trim v = []) \<or>
     (case allowedValues of
        None \<Rightarrow> False
      | Some allowed \<Rightarrow> \<exists>v \<in> set values. v \<notin> set allowed) \<or>
     \<not> distinct values"

section \<open>Pagination headers\<close>

text \<open>
  The operation result is read at \<open>page\<close>, \<open>perPage\<close> and \<open>total\<close>. The request is
  read at \<open>protocol\<close>, \<open>get('Host')\<close>, \<open>baseUrl\<close>, \<open>path\<close> and \<open>query\<close>, the last an
  object given by its properties in order. The response is the map of the headers set.
\<close>

record page_result =
  page :: int
  perPage :: int
  total :: int

record req =
  protocol :: string
  host_header :: string
  baseUrl :: string
  path :: string
  req_query :: "(string \<times> jsval) list"

type_synonym res = "string \<rightharpoonup> jsval"

definition res_set :: "string \<Rightarrow> jsval \<Rightarrow> res \<Rightarrow> res" where
  "res_set name v res = res(name \<mapsto> v)"

text \<open>
  \<open>_.assignIn(target, ...sources)\<close>: every property of every source is assigned to the
  target, in order; an existing property keeps its place, a new one goes last.
\<close>

definition assignIn ::
  "(string \<times> jsval) list \<Rightarrow> (string \<times> jsval) list list \<Rightarrow> (string \<times> jsval) list"
where
  "assignIn target sources =
     foldl (\<lambda>obj kv. AList.update (fst kv) (snd kv) obj) target (concat sources)"

text \<open>
  \<open>querystring.stringify\<close> belongs to the runtime and is a parameter of the model.
\<close>

definition getPageLink ::
  "((string \<times> jsval) list \<Rightarrow> string) \<Rightarrow> req \<Rightarrow> jsnum \<Rightarrow> string"
where
  "getPageLink stringify r p =
     (let q = assignIn [] [req_query r, [(''page'', JNum p)]]
      in protocol r @ ''://'' @ host_header r @ baseUrl r @ path r @ ''?'' @ stringify q)"

text \<open>
  \<open>Math.ceil(total / perPage)\<close> on integers, where the floating-point quotient of
  two counts below \<open>2^53\<close> has the ceiling of the exact quotient. A zero \<open>perPage\<close>
  gives an infinity or \<open>NaN\<close>, which the comparisons below treat as JavaScript does.
\<close>

definition math_ceil_div :: "int \<Rightarrow> int \<Rightarrow> jsnum" where
  "math_ceil_div a b =
     (if b \<noteq> 0 then JFinite \<lceil>real_of_int a / real_of_int b\<rceil>
      else if a > 0 then JInfinity
      else if a < 0 then JNegInfinity
      else JNaN)"

fun num_less :: "int \<Rightarrow> jsnum \<Rightarrow> bool" where
  "num_less i (JFinite n) = (i < n)"
| "num_less i JInfinity = True"
| "num_less i JNegInfinity = False"
| "num_less i JNaN = False"

fun num_positive :: "jsnum \<Rightarrow> bool" where
  "num_positive (JFinite n) = (n > 0)"
| "num_positive JInfinity = True"
| "num_positive JNegInfinity = False"
| "num_positive JNaN = False"

definition setResHeaders ::
  "((string \<times> jsval) list \<Rightarrow> string) \<Rightarrow> req \<Rightarrow> res \<Rightarrow> page_result \<Rightarrow> res"
where
  \<open>setResHeaders stringify r res result =
     (let totalPages = math_ceil_div (total result) (perPage result);
          res1 = (if page result > 1
                  then res_set ''X-Prev-Page'' (JNum (JFinite (page result - 1))) res
                  else res);
          res2 = (if num_less (page result) totalPages
                  then res_set ''X-Next-Page'' (JNum (JFinite (page result + 1))) res1
                  else res1);
          res3 = res_set ''X-Page'' (JNum (JFinite (page result))) res2;
          res4 = res_set ''X-Per-Page'' (JNum (JFinite (perPage result))) res3;
          res5 = res_set ''X-Total'' (JNum (JFinite (total result))) res4;
          res6 = res_set ''X-Total-Pages'' (JNum totalPages) res5
      in if num_positive totalPages
         then (let link0 = ''<'' @ getPageLink stringify r (JFinite 1) @ ''>; rel="first", <''
                             @ getPageLink stringify r totalPages @ ''>; rel="last"'';
                   link1 = (if page result > 1
                            then link0 @ '', <''
                                   @ getPageLink stringify r (JFinite (page result - 1))
                                   @ ''>; rel="prev"''
                            else link0);
                   link2 = (if num_less (page result) totalPages
                            then link1 @ '', <''
                                   @ getPageLink stringify r (JFinite (page result + 1))
                                   @ ''>; rel="next"''
                            else link1)
               in res_set ''Link'' (JStr link2) res6)
         else res6)\<close>

text \<open>
  The Link header as the specification describes it: a list of anchors, each a URL with
  its relation, joined by commas.
\<close>

definition anchor :: "string \<times> string \<Rightarrow> string" where
  \<open>anchor a = ''<'' @ fst a @ ''>; rel="'' @ snd a @ ''"''\<close>

fun join_anchors :: "(string \<times> string) list \<Rightarrow> string" where
  "join_anchors [] = []"
| "join_anchors [a] = anchor a"
| "join_anchors (a # b # as) = anchor a @ '', '' @ join_anchors (b # as)"

text \<open>
  A sample \<open>stringify\<close> for concrete requests: \<open>key=value\<close> pairs joined by \<open>&\<close>,
  for string values and integers, without escaping.
\<close>

function show_nat :: "nat \<Rightarrow> string" where
  "show_nat n =
     (if n < 10 then [''0123456789'' ! n]
      else show_nat (n div 10) @ [''0123456789'' ! (n mod 10)])"
  by pat_completeness auto
termination
  by (relation "measure id") auto

declare show_nat.simps [simp del]

fun show_val :: "jsval \<Rightarrow> string" where
  "show_val (JStr s) = s"
| "show_val (JNum (JFinite i)) = (if i < 0 then ''-'' @ show_nat (nat (- i)) else show_nat (nat i))"
| "show_val v = []"

fun sample_stringify :: "(string \<times> jsval) list \<Rightarrow> string" where
  "sample_stringify [] = []"
| "sample_stringify [kv] = fst kv @ ''='' @ show_val (snd kv)"
| "sample_stringify (kv # kv' # q) =
     fst kv @ ''='' @ show_val (snd kv) @ ''&'' @ sample_stringify (kv' # q)"

section \<open>Sample data\<close>

text \<open>
  A small store for concrete runs: one collection, \<open>Member\<close>, in which two rows
  carry the lower-cased handle \<open>bob\<close>, the key value \<open>down\<close> makes the store fail,
  and nothing else matches.
\<close>

definition sample_member_model :: "(string, string, string, string, string) model" where
  "sample_member_model =
     \<lparr>query_eq_exec = (\<lambda>k v.
          if v = ''down'' then (Some ''timeout'', None)
          else if k = ''handleLower'' \<and> v = ''bob''
            then (None, Some \<lparr>elems = [''Bob'', ''bob-2''], count = Some 2\<rparr>)
          else (None, Some \<lparr>elems = [], count = Some 0\<rparr>)),
      scan_exec = (\<lambda>params.
          if params = ''all'' then (None, Some \<lparr>elems = [''Bob'', ''bob-2''], count = Some 2\<rparr>)
          else (None, Some \<lparr>elems = [], count = Some 0\<rparr>)),
      query_exec = (\<lambda>params.
          if params = ''all'' then (None, Some \<lparr>elems = [''Bob'', ''bob-2''], count = Some 2\<rparr>)
          else (None, None))\<rparr>"

definition sample_models :: "(string, string, string, string, string) models" where
  "sample_models name = (if name = ''Member'' then Some sample_member_model else None)"

definition sample_req :: req where
  "sample_req =
     \<lparr>protocol = ''https'', host_header = ''api.example.com'', baseUrl = ''/v5'',
      path = ''/members'',
      req_query = [(''handle'', JStr ''bob''), (''page'', JStr ''2''), (''perPage'', JStr ''10'')]\<rparr>"

text \<open>
  An entity as loaded from the store, update payloads for it, and a store that accepts
  every write and one that refuses every write.
\<close>

definition sample_item :: entity where
  "sample_item =
     \<lparr>own_fields = [''handle'' \<mapsto> JStr ''Bob'', ''status'' \<mapsto> JStr ''ACTIVE'',
                ''email'' \<mapsto> JStr ''bob@example.com''],
      proto = None\<rparr>"

definition sample_data :: "(string \<times> jsval) list" where
  "sample_data = [(''status'', JStr ''INACTIVE''), (''country'', JStr ''NZ'')]"

definition save_ok :: "entity \<Rightarrow> string option" where
  "save_ok item = None"

definition save_fails :: "entity \<Rightarrow> string option" where
  "save_fails item = Some ''write failed''"

section \<open>Letter case\<close>

lemma zip_swap: "(a, b) \<in> set (zip xs ys) \<longleftrightarrow> (b, a) \<in> set (zip ys xs)"
  by (induction xs ys rule: list_induct2') auto

lemma letters_distinct:
  "distinct upper_letters" "distinct lower_letters"
  "length upper_letters = length lower_letters"
  by (simp_all add: upper_letters_def lower_letters_def)

lemma lower_not_upper: "d \<in> set lower_letters \<Longrightarrow> d \<notin> set upper_letters"
  by (auto simp: upper_letters_def lower_letters_def)

lemma lower_char_upper:
  assumes "(c, d) \<in> set (zip upper_letters lower_letters)"
  shows "lower_char c = d"
proof -
  have "distinct (map fst (zip upper_letters lower_letters))"
    by (simp add: letters_distinct)
  then have "map_of (zip upper_letters lower_letters) c = Some d"
    using assms by (rule map_of_is_SomeI)
  then show ?thesis by (simp add: lower_char_def)
qed

lemma lower_char_lower:
  assumes "(c, d) \<in> set (zip upper_letters lower_letters)"
  shows "lower_char d = d"
proof -
  have "d \<in> set lower_letters" using assms by (rule set_zip_rightD)
  then have "d \<notin> set upper_letters" by (rule lower_not_upper)
  then have "d \<notin> fst ` set (zip upper_letters lower_letters)"
    by (auto dest: set_zip_leftD)
  then have "map_of (zip upper_letters lower_letters) d = None"
    by (simp add: map_of_eq_None_iff)
  then show ?thesis by (simp add: lower_char_def)
qed

lemma lower_char_cases:
  "lower_char c = c \<or> (c, lower_char c) \<in> set (zip upper_letters lower_letters)"
  by (auto simp: lower_char_def dest: map_of_SomeD split: option.splits)

lemma upper_unique:
  assumes "(c, l) \<in> set (zip upper_letters lower_letters)"
    and "(d, l) \<in> set (zip upper_letters lower_letters)"
  shows "c = d"
proof -
  have dist: "distinct (map fst (zip lower_letters upper_letters))"
    by (simp add: letters_distinct)
  have "map_of (zip lower_letters upper_letters) l = Some c"
    using assms(1) zip_swap [of c l] by (intro map_of_is_SomeI [OF dist]) blast
  moreover have "map_of (zip lower_letters upper_letters) l = Some d"
    using assms(2) zip_swap [of d l] by (intro map_of_is_SomeI [OF dist]) blast
  ultimately show ?thesis by simp
qed

text \<open>
  Two characters are the same letter exactly when the code's lower-casing maps them to
  the same character, and so two strings differ only in letter case exactly when
  \<open>toLowerCase\<close> makes them equal.
\<close>

lemma same_letter_iff: "same_letter c d \<longleftrightarrow> lower_char c = lower_char d"
proof
  assume "same_letter c d"
  then show "lower_char c = lower_char d"
    unfolding same_letter_def
    by (auto simp: lower_char_upper lower_char_lower)
next
  assume eq: "lower_char c = lower_char d"
  consider "lower_char c = c" "lower_char d = d"
    | "lower_char c = c" "(d, lower_char d) \<in> set (zip upper_letters lower_letters)"
    | "(c, lower_char c) \<in> set (zip upper_letters lower_letters)" "lower_char d = d"
    | "(c, lower_char c) \<in> set (zip upper_letters lower_letters)"
      "(d, lower_char d) \<in> set (zip upper_letters lower_letters)"
    using lower_char_cases [of c] lower_char_cases [of d] by blast
  then show "same_letter c d"
  proof cases
    case 1
    with eq show ?thesis by (simp add: same_letter_def)
  next
    case 2
    with eq show ?thesis by (simp add: same_letter_def)
  next
    case 3
    with eq show ?thesis by (simp add: same_letter_def)
  next
    case 4
    with eq have "c = d" by (auto intro: upper_unique)
    then show ?thesis by (simp add: same_letter_def)
  qed
qed

lemma equalsIgnoreCase_iff: "equalsIgnoreCase s t \<longleftrightarrow> toLowerCase s = toLowerCase t"
  unfolding equalsIgnoreCase_def toLowerCase_def
  by (induction s arbitrary: t) (auto simp: same_letter_iff list_all2_Cons1)

lemma lower_char_idem: "lower_char (lower_char c) = lower_char c"
  using lower_char_cases [of c] by (auto simp: lower_char_lower)

lemma toLowerCase_idem: "toLowerCase (toLowerCase s) = toLowerCase s"
  by (simp add: toLowerCase_def lower_char_idem)

lemmas letter_eval =
  toLowerCase_def lower_char_def upper_letters_def lower_letters_def

section \<open>hasAdminRole\<close>

lemma hasAdminRole_j_iff:
  "hasAdminRole_j role A \<longleftrightarrow> (\<exists>a \<in> set A. toLowerCase role = toLowerCase a)"
  by (induction A) auto

lemma hasAdminRole_i_iff:
  "hasAdminRole_i A rs \<longleftrightarrow> (\<exists>r \<in> set rs. \<exists>a \<in> set A. toLowerCase r = toLowerCase a)"
  by (induction rs) (auto simp: hasAdminRole_j_iff)

text \<open>
  Claim C9. \<open>hasAdminRole\<close> is true exactly when some role of the principal and some
  administrative role differ at most in letter case. It is false when the roles are
  absent and when they are empty, and the role \<open>Admin\<close> matches an administrative-role
  set that contains \<open>admin\<close>, wherever the two stand in their lists.
\<close>

theorem hasAdminRole_case_insensitive:
  "(hasAdminRole ADMIN_ROLES authUser \<longleftrightarrow>
      (\<exists>rs. roles authUser = Some rs \<and>
            (\<exists>r \<in> set rs. \<exists>a \<in> set ADMIN_ROLES. equalsIgnoreCase r a))) \<and>
   \<not> hasAdminRole ADMIN_ROLES (authUser\<lparr>roles := None\<rparr>) \<and>
   \<not> hasAdminRole ADMIN_ROLES (authUser\<lparr>roles := Some []\<rparr>) \<and>
   hasAdminRole (as @ ''admin'' # bs) (authUser\<lparr>roles := Some (rs1 @ ''Admin'' # rs2)\<rparr>)"
proof -
  have "toLowerCase ''Admin'' = toLowerCase ''admin''"
    by (simp add: letter_eval)
  then have "hasAdminRole (as @ ''admin'' # bs) (authUser\<lparr>roles := Some (rs1 @ ''Admin'' # rs2)\<rparr>)"
    unfolding hasAdminRole_def by (simp add: hasAdminRole_i_iff)
  then show ?thesis
    by (auto simp: hasAdminRole_def hasAdminRole_i_iff equalsIgnoreCase_iff split: option.splits)
qed

section \<open>canManageMember\<close>

text \<open>
  Where the member's stored handle is in lower case, the comparison that the code makes
  is equality without regard to letter case.
\<close>

lemma lowercased_handle_eq:
  assumes "toLowerCase (handleLower m) = handleLower m"
  shows "toLowerCase h = handleLower m \<longleftrightarrow> equalsIgnoreCase h (handleLower m)"
  using assms by (simp add: equalsIgnoreCase_iff)

text \<open>
  Claim C3, as stated, fails for a principal whose handle is the empty string and a
  member whose stored handle is empty too: the two handles are equal, yet the guard
  \<open>currentUser.handle &&\<close> makes the result the empty string, which is falsy.
\<close>

theorem canManageMember_empty_handle_counterexample:
  "canManageMember [''administrator'', ''admin'']
      (Some \<lparr>roles = Some [], isMachine = False, handle = Some []\<rparr>) \<lparr>handleLower = []\<rparr>
     = JStr [] \<and>
   \<not> truthy (canManageMember [''administrator'', ''admin'']
      (Some \<lparr>roles = Some [], isMachine = False, handle = Some []\<rparr>) \<lparr>handleLower = []\<rparr>) \<and>
   spec_canManageMember [''administrator'', ''admin'']
      (Some \<lparr>roles = Some [], isMachine = False, handle = Some []\<rparr>) \<lparr>handleLower = []\<rparr>"
  by (simp add: canManageMember_def spec_canManageMember_def js_or_def js_and_def
      hasAdminRole_def toLowerCase_def equalsIgnoreCase_def)

text \<open>
  Claim C3, amended. The result of \<open>canManageMember\<close> is \<open>true\<close> exactly when there is
  a principal and it is a machine actor, or has an admin role, or has a non-empty handle
  whose lower-casing equals the member's stored lower-cased handle. Every other result
  is falsy; for no principal it is \<open>null\<close>.
\<close>

theorem canManageMember_iff:
  "(canManageMember ADMIN_ROLES currentUser m = JBool True \<longleftrightarrow>
      (\<exists>u. currentUser = Some u \<and>
           (isMachine u \<or> hasAdminRole ADMIN_ROLES u \<or>
            (\<exists>h. handle u = Some h \<and> h \<noteq> [] \<and> toLowerCase h = handleLower m)))) \<and>
   (truthy (canManageMember ADMIN_ROLES currentUser m) \<longleftrightarrow>
      canManageMember ADMIN_ROLES currentUser m = JBool True) \<and>
   canManageMember ADMIN_ROLES None m = JNull \<and>
   \<not> truthy (canManageMember ADMIN_ROLES None m)"
  by (auto simp: canManageMember_def js_or_def js_and_def split: option.splits)

section \<open>Lookups by a unique key\<close>

text \<open>
  Claim C1. For a collection that the store knows and a query that the store answers
  without error: with no matching row (a missing result or an empty one)
  \<open>getEntityByHashKey\<close> rejects with \<open>NotFoundError\<close>; with one row or more it
  resolves to the first row of the store's answer, so it neither rejects nor throws.
\<close>

theorem getEntityByHashKey_first_or_NotFound:
  assumes "models modelName = Some m"
    and "query_eq_exec m hashKeyName v = (None, result)"
  shows "(rows result = [] \<longrightarrow>
            getEntityByHashKey str models modelName hashKeyName v =
              Rejected (NotFoundError
                (''Can not find '' @ modelName @ '' with '' @ hashKeyName @ '': '' @ str v))) \<and>
         (\<forall>x xs. rows result = x # xs \<longrightarrow>
            getEntityByHashKey str models modelName hashKeyName v = Resolved x)"
  using assms
  by (auto simp: getEntityByHashKey_def rows_def split: option.splits)

theorem getEntityByHashKey_first_or_NotFound_witness:
  "sample_models ''Member'' = Some sample_member_model \<and>
   query_eq_exec sample_member_model ''handleLower'' ''bob''
     = (None, Some \<lparr>elems = [''Bob'', ''bob-2''], count = Some 2\<rparr>) \<and>
   getEntityByHashKey id sample_models ''Member'' ''handleLower'' ''bob'' = Resolved ''Bob'' \<and>
   query_eq_exec sample_member_model ''handleLower'' ''eve''
     = (None, Some \<lparr>elems = [], count = Some 0\<rparr>) \<and>
   getEntityByHashKey id sample_models ''Member'' ''handleLower'' ''eve''
     = Rejected (NotFoundError ''Can not find Member with handleLower: eve'')"
proof -
  have m: "sample_models ''Member'' = Some sample_member_model"
    by (simp add: sample_models_def)
  have q1: "query_eq_exec sample_member_model ''handleLower'' ''bob''
     = (None, Some \<lparr>elems = [''Bob'', ''bob-2''], count = Some 2\<rparr>)"
    by (simp add: sample_member_model_def)
  have q2: "query_eq_exec sample_member_model ''handleLower'' ''eve''
     = (None, Some \<lparr>elems = [], count = Some 0\<rparr>)"
    by (simp add: sample_member_model_def)
  from getEntityByHashKey_first_or_NotFound
         [where models = sample_models and str = id, OF m q1]
    getEntityByHashKey_first_or_NotFound
         [where models = sample_models and str = id, OF m q2] m q1 q2
  show ?thesis by (simp add: rows_def)
qed

section \<open>scan and query\<close>

text \<open>
  Claim C8. Whatever the store answers, neither \<open>scan\<close> nor \<open>query\<close> resolves to
  \<open>null\<close> or \<open>undefined\<close>. When the store call succeeds, \<open>scan\<close> resolves to the
  empty array if the store counts zero matches and to the store's result otherwise;
  \<open>query\<close> resolves to the empty array if the store hands over no result and to the
  store's result otherwise (an empty result included).
\<close>

theorem scan_query_never_null:
  "scan models modelName scanParams \<noteq> Resolved None \<and>
   query models modelName queryParams \<noteq> Resolved None \<and>
   elems empty_array = [] \<and>
   (\<forall>m r. models modelName = Some m \<longrightarrow> scan_exec m scanParams = (None, Some r) \<longrightarrow>
      (count r = Some 0 \<longrightarrow>
         scan models modelName scanParams = Resolved (Some empty_array)) \<and>
      (count r \<noteq> Some 0 \<longrightarrow>
         scan models modelName scanParams = Resolved (Some r))) \<and>
   (\<forall>m. models modelName = Some m \<longrightarrow>
      (query_exec m queryParams = (None, None) \<longrightarrow>
         query models modelName queryParams = Resolved (Some empty_array)) \<and>
      (\<forall>r. query_exec m queryParams = (None, Some r) \<longrightarrow>
         query models modelName queryParams = Resolved (Some r)))"
  by (auto simp: scan_def query_def empty_array_def split: option.splits prod.splits)

theorem scan_query_never_null_witness:
  "scan sample_models ''Member'' ''all''
     = Resolved (Some \<lparr>elems = [''Bob'', ''bob-2''], count = Some 2\<rparr>) \<and>
   scan sample_models ''Member'' ''none'' = Resolved (Some \<lparr>elems = [], count = None\<rparr>) \<and>
   query sample_models ''Member'' ''all''
     = Resolved (Some \<lparr>elems = [''Bob'', ''bob-2''], count = Some 2\<rparr>) \<and>
   query sample_models ''Member'' ''none'' = Resolved (Some \<lparr>elems = [], count = None\<rparr>)"
proof -
  have m: "sample_models ''Member'' = Some sample_member_model"
    by (simp add: sample_models_def)
  have s1: "scan_exec sample_member_model ''all''
              = (None, Some \<lparr>elems = [''Bob'', ''bob-2''], count = Some 2\<rparr>)"
    and s2: "scan_exec sample_member_model ''none''
              = (None, Some \<lparr>elems = [], count = Some 0\<rparr>)"
    and q1: "query_exec sample_member_model ''all''
              = (None, Some \<lparr>elems = [''Bob'', ''bob-2''], count = Some 2\<rparr>)"
    and q2: "query_exec sample_member_model ''none'' = (None, None)"
    by (simp_all add: sample_member_model_def)
  from scan_query_never_null [of sample_models "''Member''" "''all''" "''all''"]
    scan_query_never_null [of sample_models "''Member''" "''none''" "''none''"]
    m s1 s2 q1 q2
  show ?thesis by (simp add: empty_array_def)
qed

section \<open>getMemberByHandle\<close>

text \<open>
  Claim C10. \<open>getMemberByHandle\<close> queries the key \<open>handleLower\<close> of the collection
  \<open>Member\<close> with the lower-cased handle, and its outcome is read off the store's answer
  to that one query: the store's error, \<open>NotFoundError\<close> for no row, the first row
  otherwise. Two handles that differ only in letter case are lower-cased to the same
  string, so against the same store they resolve to the same member, or both reject
  with the same store error, or both reject with \<open>NotFoundError\<close> (whose message quotes
  the handle as it was given).
\<close>

theorem getMemberByHandle_case_insensitive:
  assumes \<open>equalsIgnoreCase h1 h2\<close>
  shows \<open>toLowerCase h1 = toLowerCase h2 \<and>
    (\<forall>x. getMemberByHandle models h1 = Resolved x
          \<longleftrightarrow> getMemberByHandle models h2 = Resolved x) \<and>
    (\<forall>e. getMemberByHandle models h1 = Rejected (StoreError e)
          \<longleftrightarrow> getMemberByHandle models h2 = Rejected (StoreError e)) \<and>
    (getMemberByHandle models h1 = Rejected TypeError
          \<longleftrightarrow> getMemberByHandle models h2 = Rejected TypeError) \<and>
    ((\<exists>msg. getMemberByHandle models h1 = Rejected (NotFoundError msg))
          \<longleftrightarrow> (\<exists>msg. getMemberByHandle models h2 = Rejected (NotFoundError msg))) \<and>
    (\<forall>m err result. models ''Member'' = Some m \<longrightarrow>
        query_eq_exec m ''handleLower'' (toLowerCase h1) = (err, result) \<longrightarrow>
        getMemberByHandle models h1 =
          (case err of
             Some e \<Rightarrow> Rejected (StoreError e)
           | None \<Rightarrow>
               (case rows result of
                  [] \<Rightarrow> Rejected (NotFoundError
                          (''Member with handle: "'' @ h1 @ ''" doesn't exist''))
                | x # xs \<Rightarrow> Resolved x)))\<close>
proof -
  from assms have eq: "toLowerCase h1 = toLowerCase h2"
    by (simp add: equalsIgnoreCase_iff)
  show ?thesis
    unfolding getMemberByHandle_def eq
    by (auto simp: rows_def neq_Nil_conv split: option.splits prod.splits list.splits)
qed

theorem getMemberByHandle_case_insensitive_witness:
  \<open>equalsIgnoreCase ''Bob'' ''BOB'' \<and>
   getMemberByHandle sample_models ''Bob'' = Resolved ''Bob'' \<and>
   getMemberByHandle sample_models ''BOB'' = Resolved ''Bob'' \<and>
   getMemberByHandle sample_models ''Eve''
     = Rejected (NotFoundError ''Member with handle: "Eve" doesn't exist'') \<and>
   (\<exists>msg. getMemberByHandle sample_models ''eVE'' = Rejected (NotFoundError msg))\<close>
proof -
  have h: "equalsIgnoreCase ''Bob'' ''BOB''"
    by (simp add: equalsIgnoreCase_iff letter_eval)
  have r: "getMemberByHandle sample_models ''Bob'' = Resolved ''Bob''"
    by (simp add: getMemberByHandle_def sample_models_def sample_member_model_def letter_eval)
  from getMemberByHandle_case_insensitive [OF h, of sample_models]
  have b: "getMemberByHandle sample_models ''Bob'' = Resolved ''Bob''
          \<longleftrightarrow> getMemberByHandle sample_models ''BOB'' = Resolved ''Bob''"
    by blast
  have h': "equalsIgnoreCase ''Eve'' ''eVE''"
    by (simp add: equalsIgnoreCase_iff letter_eval)
  have e: \<open>getMemberByHandle sample_models ''Eve''
     = Rejected (NotFoundError ''Member with handle: "Eve" doesn't exist'')\<close>
    by (simp add: getMemberByHandle_def sample_models_def sample_member_model_def letter_eval)
  from getMemberByHandle_case_insensitive [OF h', of sample_models] e
  have e': "\<exists>msg. getMemberByHandle sample_models ''eVE'' = Rejected (NotFoundError msg)"
    by blast
  from h r b e e' show ?thesis by simp
qed

section \<open>update\<close>

lemma assign_fields_other:
  "k \<noteq> key \<Longrightarrow> own_fields (assign item key v) k = own_fields item k"
  by (simp add: assign_def)

lemma assign_fields_same:
  "key \<noteq> ''__proto__'' \<Longrightarrow> own_fields (assign item key v) key = Some v"
  by (simp add: assign_def)

lemma assign_ordinary:
  "key \<noteq> ''__proto__'' \<Longrightarrow> assign item key v = item\<lparr>own_fields := (own_fields item)(key \<mapsto> v)\<rparr>"
  by (simp add: assign_def)

lemma foldl_assign_fields:
  "k \<noteq> ''__proto__'' \<Longrightarrow>
   own_fields (foldl (\<lambda>item key. assign item key (f key)) e ks) k
     = (if k \<in> set ks then Some (f k) else own_fields e k)"
proof (induction ks arbitrary: e)
  case Nil
  then show ?case by simp
next
  case (Cons key ks)
  then show ?case
    by (cases "k = key") (simp_all add: assign_fields_same assign_fields_other)
qed

lemma foldl_assign_untouched:
  "k \<notin> set ks \<Longrightarrow>
   own_fields (foldl (\<lambda>item key. assign item key (f key)) e ks) k = own_fields e k"
  by (induction ks arbitrary: e) (simp_all add: assign_fields_other)

lemma foldl_assign_ordinary:
  "''__proto__'' \<notin> set ks \<Longrightarrow>
   foldl (\<lambda>item key. assign item key (f key)) e ks
     = e\<lparr>own_fields := (\<lambda>k. if k \<in> set ks then Some (f k) else own_fields e k)\<rparr>"
proof (induction ks arbitrary: e)
  case Nil
  then show ?case by simp
next
  case (Cons key ks)
  then have "key \<noteq> ''__proto__''" and "''__proto__'' \<notin> set ks" by auto
  with Cons.IH [of "assign e key (f key)"] show ?case
    by (auto simp: assign_ordinary fun_eq_iff)
qed

lemma get_prop_Some:
  "k \<in> set (Object_keys data) \<Longrightarrow> \<exists>v. get_prop data k = Some v \<and> (k, v) \<in> set data"
  by (cases "map_of data k")
     (auto simp: Object_keys_def get_prop_def map_of_eq_None_iff dest: map_of_SomeD)

lemma read_prop_get_prop:
  "k \<in> set (Object_keys data) \<Longrightarrow> Some (read_prop data k) = get_prop data k"
  using get_prop_Some [of k data] by (auto simp: read_prop_def)

lemma merge_fields_ordinary:
  "''__proto__'' \<notin> set (Object_keys data) \<Longrightarrow>
   merge_fields dbItem data
     = dbItem\<lparr>own_fields := (\<lambda>k. if k \<in> set (Object_keys data) then get_prop data k
                                 else own_fields dbItem k)\<rparr>"
  by (simp add: merge_fields_def foldl_assign_ordinary read_prop_get_prop cong: if_cong)

lemma merge_fields_idem:
  "''__proto__'' \<notin> set (Object_keys data) \<Longrightarrow>
   merge_fields (merge_fields dbItem data) data = merge_fields dbItem data"
  by (simp add: merge_fields_ordinary fun_eq_iff)

text \<open>
  A payload key \<open>save\<close> shadows the method: the write is never attempted, whatever the
  store would have answered.
\<close>

lemma update_shadowed_save:
  "''save'' \<in> set (Object_keys data) \<Longrightarrow>
   snd (update save dbItem data) = Rejected TypeError"
  by (simp add: update_def Let_def can_save_def merge_fields_def foldl_assign_fields)

text \<open>
  Claim C4, as stated, fails for payload keys that name what the entity inherits. To
  the key \<open>__proto__\<close> with the value \<open>1\<close> the assignment does nothing: the entity is left
  as it was and has no field of that name. With the key \<open>save\<close> the field is set and
  shadows the method, so nothing is persisted and the promise is rejected with
  \<open>TypeError\<close>, though the store would have accepted the write.
\<close>

theorem update_inherited_key_counterexample:
  "get_prop [(''__proto__'', JNum (JFinite 1))] ''__proto__'' = Some (JNum (JFinite 1)) \<and>
   fst (update save_ok sample_item [(''__proto__'', JNum (JFinite 1))]) = sample_item \<and>
   own_fields (fst (update save_ok sample_item [(''__proto__'', JNum (JFinite 1))])) ''__proto__''
     = None \<and>
   own_fields (fst (update save_ok sample_item [(''save'', JStr ''x'')])) ''save''
     = Some (JStr ''x'') \<and>
   save_ok (fst (update save_ok sample_item [(''save'', JStr ''x'')])) = None \<and>
   snd (update save_ok sample_item [(''save'', JStr ''x'')]) = Rejected TypeError"
  by (simp add: update_def Let_def merge_fields_def Object_keys_def get_prop_def read_prop_def
      assign_def can_save_def sample_item_def save_ok_def)

text \<open>
  Claim C4, amended. \<open>update\<close> merges the payload into the entity field by field: every
  key of \<open>data\<close> other than \<open>__proto__\<close> names a field that now holds the value \<open>data\<close>
  has for it, and every field not named by a key of \<open>data\<close> is as before. When the
  entity has its method \<open>save\<close> and no key of \<open>data\<close> is \<open>save\<close> or \<open>__proto__\<close>, \<open>save\<close> is
  then called on the merged entity: if it reports an error the promise is rejected with
  that error, otherwise it resolves to the merged entity.
\<close>

theorem update_shallow_merge:
  "(\<forall>k \<in> set (Object_keys data). k \<noteq> ''__proto__'' \<longrightarrow>
      own_fields (fst (update save dbItem data)) k = get_prop data k \<and> get_prop data k \<noteq> None) \<and>
   (\<forall>k. k \<notin> set (Object_keys data) \<longrightarrow>
      own_fields (fst (update save dbItem data)) k = own_fields dbItem k) \<and>
   (can_save dbItem \<and> ''save'' \<notin> set (Object_keys data)
      \<and> ''__proto__'' \<notin> set (Object_keys data) \<longrightarrow>
      (\<forall>err. save (merge_fields dbItem data) = Some err \<longrightarrow>
         snd (update save dbItem data) = Rejected (StoreError err)) \<and>
      (save (merge_fields dbItem data) = None \<longrightarrow>
         snd (update save dbItem data) = Resolved (merge_fields dbItem data))) \<and>
   fst (update save dbItem data) = merge_fields dbItem data"
proof -
  have written: "own_fields (merge_fields dbItem data) k = get_prop data k \<and> get_prop data k \<noteq> None"
    if "k \<in> set (Object_keys data)" and "k \<noteq> ''__proto__''" for k
    using that read_prop_get_prop [of k data, symmetric]
    by (simp add: merge_fields_def foldl_assign_fields)
  have kept: "own_fields (merge_fields dbItem data) k = own_fields dbItem k"
    if "k \<notin> set (Object_keys data)" for k
    using that by (simp add: merge_fields_def foldl_assign_untouched)
  have saves: "can_save (merge_fields dbItem data)"
    if "can_save dbItem" and "''save'' \<notin> set (Object_keys data)"
      and "''__proto__'' \<notin> set (Object_keys data)"
    using that by (simp add: merge_fields_ordinary can_save_def)
  show ?thesis
    using written kept saves
    by (auto simp: update_def Let_def)
qed

theorem update_shallow_merge_witness:
  "own_fields (fst (update save_fails sample_item sample_data)) ''status''
     = Some (JStr ''INACTIVE'') \<and>
   own_fields (fst (update save_fails sample_item sample_data)) ''country''
     = Some (JStr ''NZ'') \<and>
   own_fields (fst (update save_fails sample_item sample_data)) ''email''
     = Some (JStr ''bob@example.com'') \<and>
   snd (update save_fails sample_item sample_data)
     = Rejected (StoreError ''write failed'')"
proof -
  note t = update_shallow_merge [of sample_data save_fails sample_item]
  have keys: "Object_keys sample_data = [''status'', ''country'']"
    by (simp add: Object_keys_def sample_data_def)
  from t have "\<forall>k \<in> set (Object_keys sample_data). k \<noteq> ''__proto__'' \<longrightarrow>
      own_fields (fst (update save_fails sample_item sample_data)) k = get_prop sample_data k"
    by blast
  then have "\<forall>k \<in> set [''status'', ''country'']. k \<noteq> ''__proto__'' \<longrightarrow>
      own_fields (fst (update save_fails sample_item sample_data)) k = get_prop sample_data k"
    by (simp only: keys)
  then have written:
    "own_fields (fst (update save_fails sample_item sample_data)) ''status''
       = Some (JStr ''INACTIVE'')"
    "own_fields (fst (update save_fails sample_item sample_data)) ''country'' = Some (JStr ''NZ'')"
    by (simp_all add: get_prop_def sample_data_def)
  from t have "''email'' \<notin> set (Object_keys sample_data) \<longrightarrow>
      own_fields (fst (update save_fails sample_item sample_data)) ''email''
        = own_fields sample_item ''email''"
    by blast
  then have kept:
    "own_fields (fst (update save_fails sample_item sample_data)) ''email''
       = Some (JStr ''bob@example.com'')"
    by (simp add: keys sample_item_def)
  have pre: "can_save sample_item \<and> ''save'' \<notin> set (Object_keys sample_data)
      \<and> ''__proto__'' \<notin> set (Object_keys sample_data)"
    by (simp add: keys can_save_def sample_item_def)
  have "save_fails (merge_fields sample_item sample_data) = Some ''write failed''"
    by (simp add: save_fails_def)
  with t pre have rejected:
    "snd (update save_fails sample_item sample_data) = Rejected (StoreError ''write failed'')"
    by blast
  from written kept rejected show ?thesis by simp
qed

text \<open>
  Claim C5, as stated, fails for the payload whose one key is \<open>__proto__\<close>, with the value
  \<open>null\<close>. The first \<open>update\<close> calls the accessor, which sets the prototype of the entity
  to \<open>null\<close>. The entity then inherits no accessor any more, so the second \<open>update\<close>
  makes \<open>__proto__\<close> an ordinary field of the entity, with the value \<open>null\<close>: after two
  updates the entity has a field that it does not have after one.
\<close>

theorem update_not_idempotent_counterexample:
  "own_fields (fst (update save_ok sample_item [(''__proto__'', JNull)])) ''__proto__'' = None \<and>
   proto (fst (update save_ok sample_item [(''__proto__'', JNull)])) = Some JNull \<and>
   own_fields (fst (update save_ok (fst (update save_ok sample_item [(''__proto__'', JNull)]))
                  [(''__proto__'', JNull)])) ''__proto__'' = Some JNull \<and>
   fst (update save_ok (fst (update save_ok sample_item [(''__proto__'', JNull)]))
          [(''__proto__'', JNull)])
     \<noteq> fst (update save_ok sample_item [(''__proto__'', JNull)])"
proof -
  have once: "fst (update save_ok sample_item [(''__proto__'', JNull)])
      = sample_item\<lparr>proto := Some JNull\<rparr>"
    by (simp add: update_def Let_def merge_fields_def Object_keys_def get_prop_def read_prop_def
        assign_def sample_item_def)
  have twice: "fst (update save_ok (sample_item\<lparr>proto := Some JNull\<rparr>) [(''__proto__'', JNull)])
      = sample_item\<lparr>proto := Some JNull,
                     own_fields := (own_fields sample_item)(''__proto__'' \<mapsto> JNull)\<rparr>"
    by (simp add: update_def Let_def merge_fields_def Object_keys_def get_prop_def read_prop_def
        assign_def sample_item_def)
  have differ: "sample_item\<lparr>proto := Some JNull,
                     own_fields := (own_fields sample_item)(''__proto__'' \<mapsto> JNull)\<rparr>
      \<noteq> sample_item\<lparr>proto := Some JNull\<rparr>"
  proof
    assume "sample_item\<lparr>proto := Some JNull,
                     own_fields := (own_fields sample_item)(''__proto__'' \<mapsto> JNull)\<rparr>
      = sample_item\<lparr>proto := Some JNull\<rparr>"
    then have "own_fields (sample_item\<lparr>proto := Some JNull,
                     own_fields := (own_fields sample_item)(''__proto__'' \<mapsto> JNull)\<rparr>) ''__proto__''
      = own_fields (sample_item\<lparr>proto := Some JNull\<rparr>) ''__proto__''"
      by simp
    then show False by (simp add: sample_item_def)
  qed
  show ?thesis
    unfolding once twice using differ by (simp add: sample_item_def)
qed

text \<open>
  Claim C5, amended. For a payload without the key \<open>__proto__\<close>, applying \<open>update\<close> with
  the same payload to the entity that a first \<open>update\<close> has left gives the same entity,
  field for field, and the same outcome: the merge step is idempotent.
\<close>

theorem update_idempotent:
  assumes "''__proto__'' \<notin> set (Object_keys data)"
  shows
    "update save (fst (update save dbItem data)) data = update save dbItem data \<and>
     fst (update save (fst (update save dbItem data)) data) = fst (update save dbItem data) \<and>
     merge_fields (merge_fields dbItem data) data = merge_fields dbItem data"
  using assms by (simp add: update_def Let_def merge_fields_idem)

theorem update_idempotent_witness:
  "''__proto__'' \<notin> set (Object_keys sample_data) \<and>
   update save_fails (fst (update save_fails sample_item sample_data)) sample_data
     = update save_fails sample_item sample_data \<and>
   own_fields (fst (update save_fails (fst (update save_fails sample_item sample_data)) sample_data))
       ''status''
     = Some (JStr ''INACTIVE'')"
proof -
  have pre: "''__proto__'' \<notin> set (Object_keys sample_data)"
    by (simp add: Object_keys_def sample_data_def)
  have once: "own_fields (fst (update save_fails sample_item sample_data)) ''status''
      = Some (JStr ''INACTIVE'')"
    by (simp add: update_def Let_def merge_fields_ordinary [OF pre])
       (simp add: Object_keys_def get_prop_def sample_data_def)
  from update_idempotent [OF pre, of save_fails sample_item] pre once
  show ?thesis by simp
qed

section \<open>parseCommaSeparatedString\<close>

lemma check_values_BadRequest:
  "check_values allowedValues own vs = Some e \<Longrightarrow> \<exists>msg. e = BadRequestError msg"
  by (induction vs arbitrary: own) (auto split: if_splits)

lemma check_values_None_iff:
  assumes "set vs \<inter> set Object_prototype_names = {}"
  shows "check_values allowedValues own vs = None \<longleftrightarrow>
    (\<forall>v \<in> set vs. trim v \<noteq> []) \<and>
    (case allowedValues of None \<Rightarrow> True | Some allowed \<Rightarrow> set vs \<subseteq> set allowed) \<and>
    distinct vs \<and> set vs \<inter> set own = {}"
  using assms
proof (induction vs arbitrary: own)
  case Nil
  then show ?case by (simp split: option.splits)
next
  case (Cons v vs)
  from Cons.prems have v: "v \<notin> set Object_prototype_names"
    and vs: "set vs \<inter> set Object_prototype_names = {}"
    by auto
  show ?case
    using Cons.IH [OF vs, of "v # own"] v
    by (auto simp: mapping_get_def split: option.splits)
qed

text \<open>
  For a string none of whose elements is a name that objects inherit, the parser does
  what the specification says: it fails with \<open>BadRequestError\<close> exactly when an element
  is empty once trimmed, is not among the allowed values, or occurs twice, and
  otherwise returns the elements.
\<close>

lemma parseCommaSeparatedString_without_inherited_names:
  assumes "str \<noteq> []"
    and "set (split CHR '','' str) \<inter> set Object_prototype_names = {}"
  shows "(spec_bad_request allowedValues (split CHR '','' str) \<longrightarrow>
            (\<exists>msg. (parseCommaSeparatedString (Some str) allowedValues
                      :: 'e error + string list option)
                     = Inl (BadRequestError msg))) \<and>
         (\<not> spec_bad_request allowedValues (split CHR '','' str) \<longrightarrow>
            (parseCommaSeparatedString (Some str) allowedValues
               :: 'e error + string list option)
              = Inr (Some (split CHR '','' str)))"
proof -
  let ?vs = "split CHR '','' str"
  let ?c = "check_values allowedValues [] ?vs :: 'e error option"
  have none: "?c = None \<longleftrightarrow> \<not> spec_bad_request allowedValues ?vs"
    by (auto simp: check_values_None_iff [OF assms(2)] spec_bad_request_def
        split: option.splits)
  show ?thesis
  proof (cases ?c)
    case None
    with none assms(1) show ?thesis
      by (simp add: parseCommaSeparatedString_def Let_def)
  next
    case (Some e)
    with check_values_BadRequest [OF Some] none assms(1) show ?thesis
      by (auto simp: parseCommaSeparatedString_def Let_def)
  qed
qed

text \<open>The examples of the specification, and one for each error.\<close>

lemma parseCommaSeparatedString_examples:
  "parseCommaSeparatedString None allowedValues = Inr None"
  "parseCommaSeparatedString (Some []) allowedValues = Inr None"
  "parseCommaSeparatedString (Some ''a,b'') (Some [''a'', ''b'']) = Inr (Some [''a'', ''b''])"
  "parseCommaSeparatedString (Some ''a,a'') None = Inl (BadRequestError ''Duplicate values: a'')"
  "parseCommaSeparatedString (Some ''a, ,b'') None = Inl (BadRequestError ''Empty value.'')"
  "parseCommaSeparatedString (Some ''a,c'') (Some [''a'', ''b''])
     = Inl (BadRequestError ''Invalid value: c'')"
  by (simp_all add: parseCommaSeparatedString_def mapping_get_def Object_prototype_names_def
      trim_def is_space_def)

text \<open>
  Claim C2 has the parser return the elements unless one is empty, not allowed or
  repeated. The code misses this for an element that names a property every object
  inherits: \<open>mapping[value]\<close> is then truthy before anything was stored, and the single
  element \<open>constructor\<close> is rejected as a duplicate value.
\<close>

theorem parseCommaSeparatedString_inherited_name:
  "parseCommaSeparatedString (Some ''constructor'') None
     = Inl (BadRequestError ''Duplicate values: constructor'') \<and>
   split CHR '','' ''constructor'' = [''constructor''] \<and>
   \<not> spec_bad_request None (split CHR '','' ''constructor'')"
  by (simp add: parseCommaSeparatedString_def mapping_get_def Object_prototype_names_def
      trim_def is_space_def spec_bad_request_def)

section \<open>setResHeaders\<close>

lemma update_fresh:
  "k \<notin> fst ` set al \<Longrightarrow> AList.update k v al = al @ [(k, v)]"
  by (induction al) auto

lemma foldl_update_distinct:
  "distinct (map fst (acc @ qs)) \<Longrightarrow>
   foldl (\<lambda>obj kv. AList.update (fst kv) (snd kv) obj) acc qs = acc @ qs"
proof (induction qs arbitrary: acc)
  case Nil
  then show ?case by simp
next
  case (Cons kv qs)
  from Cons.prems have fresh: "fst kv \<notin> fst ` set acc" by auto
  from Cons.prems have "distinct (map fst ((acc @ [kv]) @ qs))" by simp
  from Cons.IH [OF this] fresh show ?case
    by (simp add: update_fresh)
qed

lemma filter_update_other:
  "filter (\<lambda>kv. fst kv \<noteq> k) (AList.update k v al) = filter (\<lambda>kv. fst kv \<noteq> k) al"
  by (induction al) auto

lemma assignIn_page:
  assumes "distinct (map fst q)"
  shows "assignIn [] [q, [(''page'', v)]] = AList.update ''page'' v q"
  using foldl_update_distinct [of "[]" q] assms
  by (simp add: assignIn_def)

lemma math_ceil_div_finite:
  "b \<noteq> 0 \<Longrightarrow> math_ceil_div a b = JFinite \<lceil>real_of_int a / real_of_int b\<rceil>"
  by (simp add: math_ceil_div_def)

lemma update_keys:
  "map fst (AList.update k v al) = (if k \<in> fst ` set al then map fst al else map fst al @ [k])"
  by (induction al) auto

lemma sample_page_link:
  "0 \<le> p \<Longrightarrow> p < 10 \<Longrightarrow>
   getPageLink sample_stringify sample_req (JFinite p)
     = ''https://api.example.com/v5/members?handle=bob&page='' @ show_nat (nat p) @ ''&perPage=10''"
  by (simp add: getPageLink_def assignIn_def sample_req_def Let_def)

text \<open>
  Claim C6, as stated, fails for an empty result that is asked for at a later page:
  with \<open>total = 0\<close> and \<open>page = 2\<close> the total number of pages is 0, yet
  \<open>X-Prev-Page\<close> is set, to 1, since \<open>page > 1\<close> is all that the code tests.
\<close>

theorem setResHeaders_prev_page_counterexample:
  "setResHeaders sample_stringify sample_req Map.empty \<lparr>page = 2, perPage = 10, total = 0\<rparr>
     ''X-Prev-Page'' = Some (JNum (JFinite 1)) \<and>
   setResHeaders sample_stringify sample_req Map.empty \<lparr>page = 2, perPage = 10, total = 0\<rparr>
     ''X-Total-Pages'' = Some (JNum (JFinite 0))"
  by (simp add: setResHeaders_def math_ceil_div_def res_set_def Let_def)

text \<open>
  Claim C6, amended. For \<open>page \<ge> 1\<close>, \<open>perPage \<ge> 1\<close> and \<open>total \<ge> 0\<close> the four headers
  \<open>X-Page\<close>, \<open>X-Per-Page\<close>, \<open>X-Total\<close> and \<open>X-Total-Pages\<close> are always set, the last
  to the ceiling of \<open>total / perPage\<close>. \<open>X-Prev-Page\<close> is set, to \<open>page - 1\<close>, exactly
  when \<open>page > 1\<close>, and \<open>X-Next-Page\<close>, to \<open>page + 1\<close>, exactly when \<open>page\<close> is less
  than the total number of pages; a header that is not set is left as the response had
  it. For \<open>total = 0\<close> the total number of pages is 0 and neither \<open>X-Next-Page\<close> nor
  \<open>Link\<close> is set; \<open>X-Prev-Page\<close> is not set either when \<open>page = 1\<close>.
\<close>

theorem setResHeaders_navigation:
  assumes "page result \<ge> 1" and "perPage result \<ge> 1" and "total result \<ge> 0"
  shows
    "let res' = setResHeaders stringify r res result;
         totalPages = \<lceil>real_of_int (total result) / real_of_int (perPage result)\<rceil>
     in res' ''X-Page'' = Some (JNum (JFinite (page result))) \<and>
        res' ''X-Per-Page'' = Some (JNum (JFinite (perPage result))) \<and>
        res' ''X-Total'' = Some (JNum (JFinite (total result))) \<and>
        res' ''X-Total-Pages'' = Some (JNum (JFinite totalPages)) \<and>
        res' ''X-Prev-Page'' =
          (if page result > 1 then Some (JNum (JFinite (page result - 1)))
           else res ''X-Prev-Page'') \<and>
        res' ''X-Next-Page'' =
          (if page result < totalPages then Some (JNum (JFinite (page result + 1)))
           else res ''X-Next-Page'') \<and>
        (total result = 0 \<longrightarrow>
           totalPages = 0 \<and> res' ''X-Next-Page'' = res ''X-Next-Page'' \<and>
           res' ''Link'' = res ''Link'') \<and>
        (total result = 0 \<and> page result = 1 \<longrightarrow>
           res' ''X-Prev-Page'' = res ''X-Prev-Page'')"
proof -
  from assms(2) have fin: "math_ceil_div (total result) (perPage result)
      = JFinite \<lceil>real_of_int (total result) / real_of_int (perPage result)\<rceil>"
    by (simp add: math_ceil_div_finite)
  show ?thesis
    using assms(1)
    by (simp add: setResHeaders_def fin res_set_def Let_def)
qed

theorem setResHeaders_navigation_witness:
  "setResHeaders sample_stringify sample_req Map.empty \<lparr>page = 1, perPage = 10, total = 45\<rparr> ''X-Total-Pages''
     = Some (JNum (JFinite 5)) \<and>
   setResHeaders sample_stringify sample_req Map.empty \<lparr>page = 1, perPage = 10, total = 45\<rparr> ''X-Prev-Page''
     = None \<and>
   setResHeaders sample_stringify sample_req Map.empty \<lparr>page = 1, perPage = 10, total = 45\<rparr> ''X-Next-Page''
     = Some (JNum (JFinite 2)) \<and>
   setResHeaders sample_stringify sample_req Map.empty \<lparr>page = 5, perPage = 10, total = 45\<rparr> ''X-Prev-Page''
     = Some (JNum (JFinite 4)) \<and>
   setResHeaders sample_stringify sample_req Map.empty \<lparr>page = 5, perPage = 10, total = 45\<rparr> ''X-Next-Page''
     = None \<and>
   setResHeaders sample_stringify sample_req Map.empty \<lparr>page = 1, perPage = 10, total = 0\<rparr> ''X-Total-Pages''
     = Some (JNum (JFinite 0)) \<and>
   setResHeaders sample_stringify sample_req Map.empty \<lparr>page = 1, perPage = 10, total = 0\<rparr> ''X-Prev-Page''
     = None \<and>
   setResHeaders sample_stringify sample_req Map.empty \<lparr>page = 1, perPage = 10, total = 0\<rparr> ''X-Next-Page''
     = None \<and>
   setResHeaders sample_stringify sample_req Map.empty \<lparr>page = 1, perPage = 10, total = 0\<rparr> ''Link''
     = None"
  using
    setResHeaders_navigation [of "\<lparr>page = 1, perPage = 10, total = 45\<rparr>" sample_stringify sample_req Map.empty]
    setResHeaders_navigation [of "\<lparr>page = 5, perPage = 10, total = 45\<rparr>" sample_stringify sample_req Map.empty]
    setResHeaders_navigation [of "\<lparr>page = 1, perPage = 10, total = 0\<rparr>" sample_stringify sample_req Map.empty]
  by (simp add: Let_def)

text \<open>
  Claim C7. When the total number of pages is positive, the \<open>Link\<close> header is set to
  the anchors \<open>first\<close> (page 1) and \<open>last\<close> (the last page), followed by \<open>prev\<close>
  (page \<open>page - 1\<close>) exactly when \<open>page > 1\<close> and by \<open>next\<close> (page \<open>page + 1\<close>) exactly
  when \<open>page\<close> is less than the total number of pages. The URL of an anchor is the
  request's own address followed by the request's query in which \<open>page\<close> alone is
  overridden: every other parameter keeps its value and its place, and \<open>page\<close> keeps
  its place or, if the request had none, goes last.
\<close>

theorem setResHeaders_link:
  assumes "perPage result \<ge> 1"
    and "\<lceil>real_of_int (total result) / real_of_int (perPage result)\<rceil> > 0"
  shows
    "let totalPages = \<lceil>real_of_int (total result) / real_of_int (perPage result)\<rceil>;
         url = (\<lambda>p. getPageLink stringify r (JFinite p));
         q = (\<lambda>p. AList.update ''page'' (JNum (JFinite p)) (req_query r))
     in setResHeaders stringify r res result ''Link'' =
          Some (JStr (join_anchors
            ([(url 1, ''first''), (url totalPages, ''last'')] @
             (if page result > 1 then [(url (page result - 1), ''prev'')] else []) @
             (if page result < totalPages then [(url (page result + 1), ''next'')] else [])))) \<and>
        (distinct (map fst (req_query r)) \<longrightarrow>
           (\<forall>p. url p = protocol r @ ''://'' @ host_header r @ baseUrl r @ path r @ ''?''
                          @ stringify (q p) \<and>
                map_of (q p) = (map_of (req_query r))(''page'' \<mapsto> JNum (JFinite p)) \<and>
                filter (\<lambda>kv. fst kv \<noteq> ''page'') (q p)
                  = filter (\<lambda>kv. fst kv \<noteq> ''page'') (req_query r) \<and>
                map fst (q p) =
                  (if ''page'' \<in> fst ` set (req_query r) then map fst (req_query r)
                   else map fst (req_query r) @ [''page''])))"
proof -
  from assms(1) have fin: "math_ceil_div (total result) (perPage result)
      = JFinite \<lceil>real_of_int (total result) / real_of_int (perPage result)\<rceil>"
    by (simp add: math_ceil_div_finite)
  have link: "setResHeaders stringify r res result ''Link'' =
      Some (JStr (join_anchors
        ([(getPageLink stringify r (JFinite 1), ''first''),
          (getPageLink stringify r
             (JFinite \<lceil>real_of_int (total result) / real_of_int (perPage result)\<rceil>),
           ''last'')] @
         (if page result > 1
          then [(getPageLink stringify r (JFinite (page result - 1)), ''prev'')] else []) @
         (if page result < \<lceil>real_of_int (total result) / real_of_int (perPage result)\<rceil>
          then [(getPageLink stringify r (JFinite (page result + 1)), ''next'')] else []))))"
    using assms(2)
    by (simp add: setResHeaders_def fin res_set_def Let_def anchor_def)
  have urls: "getPageLink stringify r (JFinite p)
        = protocol r @ ''://'' @ host_header r @ baseUrl r @ path r @ ''?''
            @ stringify (AList.update ''page'' (JNum (JFinite p)) (req_query r))"
    if "distinct (map fst (req_query r))" for p
    using that by (simp add: getPageLink_def assignIn_page Let_def)
  show ?thesis
    unfolding Let_def
    using link urls
    by (simp add: update_conv' filter_update_other update_keys)
qed

theorem setResHeaders_link_witness:
  \<open>setResHeaders sample_stringify sample_req Map.empty \<lparr>page = 2, perPage = 10, total = 45\<rparr>
     ''Link'' = Some (JStr
       (''<https://api.example.com/v5/members?handle=bob&page=1&perPage=10>; rel="first", '' @
        ''<https://api.example.com/v5/members?handle=bob&page=5&perPage=10>; rel="last", '' @
        ''<https://api.example.com/v5/members?handle=bob&page=1&perPage=10>; rel="prev", '' @
        ''<https://api.example.com/v5/members?handle=bob&page=3&perPage=10>; rel="next"''))\<close>
proof -
  have pos: "\<lceil>real_of_int (total \<lparr>page = 2, perPage = 10, total = 45\<rparr>)
               / real_of_int (perPage \<lparr>page = 2, perPage = 10, total = 45\<rparr>)\<rceil> > 0"
    by simp
  have per: "perPage \<lparr>page = 2, perPage = 10, total = 45\<rparr> \<ge> 1"
    by simp
  from setResHeaders_link [OF per pos, of sample_stringify sample_req Map.empty]
  show ?thesis
    by (simp add: Let_def sample_page_link anchor_def show_nat.simps)
qed

end
